theory Spec2Isabelle
  imports Main
begin

section \<open>Warbler models: users, messages, follows and likes\<close>

text \<open>
  A shallow embedding of \<^verbatim>\<open>models.py\<close>. The module declares four mapped classes
  (\<^verbatim>\<open>User\<close>, \<^verbatim>\<open>Message\<close>, \<^verbatim>\<open>Follow\<close>, \<^verbatim>\<open>Like\<close>) and the methods of
  \<^verbatim>\<open>User\<close>. Every method works through the shared session \<^verbatim>\<open>db.session\<close>, so the
  embedding passes the session explicitly and returns it updated. The session and the
  database behind it are library code; their behaviour is written out below as far as the
  methods of the module use it.
\<close>

subsection \<open>Rows\<close>

text \<open>
  One record per table, one field per \<^verbatim>\<open>mapped_column\<close>. Field names carry a prefix for
  the table (\<open>u_\<close>, \<open>m_\<close>, \<open>l_\<close>) because \<^verbatim>\<open>id\<close> and \<^verbatim>\<open>user_id\<close> occur in several
  classes and \<open>id\<close> is a constant of HOL. Integers are primary keys drawn from an identity
  sequence, hence natural numbers; a timestamp is a natural number of clock ticks.
\<close>

record user =
  u_id :: nat
  u_email :: string
  u_username :: string
  u_image_url :: string
  u_header_image_url :: string
  u_bio :: string
  u_location :: string
  u_password :: string

record message =
  m_id :: nat
  m_text :: string
  m_timestamp :: nat
  m_user_id :: nat

record follow =
  user_being_followed_id :: nat
  user_following_id :: nat

record like =
  l_user_id :: nat
  l_message_id :: nat

definition DEFAULT_IMAGE_URL :: string where
  "DEFAULT_IMAGE_URL =
     ''https://icon-library.com/images/default-user-icon/'' @
     ''default-user-icon-28.jpg''"

definition DEFAULT_HEADER_IMAGE_URL :: string where
  "DEFAULT_HEADER_IMAGE_URL =
     ''https://images.unsplash.com/photo-1519751138087-5bf79df62d5b?ixlib='' @
     ''rb-4.0.3&ixid=MnwxMjA3fDB8MHxwaG90by1wYWdlfHx8fGVufDB8fHx8&auto=for'' @
     ''mat&fit=crop&w=2070&q=80''"

subsection \<open>Errors\<close>

text \<open>
  The exceptions the methods can let through. \<open>IntegrityError\<close> is what the session raises
  when the database rejects a row for a unique, primary-key or foreign-key constraint;
  \<open>DataError\<close> when a value does not fit its column (a string longer than the declared
  \<^verbatim>\<open>String(n)\<close>); \<open>ValueError\<close> comes from the password hasher;
  \<open>MultipleResultsFound\<close> from \<^verbatim>\<open>scalar_one_or_none\<close>; \<open>AttributeError\<close> from reading
  \<^verbatim>\<open>.id\<close> of \<^verbatim>\<open>None\<close>.

  The database is taken to enforce the constraints and the column lengths the module
  declares, at the INSERT of a row, as PostgreSQL does (the identity columns and the
  \<^verbatim>\<open>ondelete\<close> clauses of the module are written for such a server). The driver
  refuses a string parameter that holds the character NUL with a \<open>ValueError\<close>, before
  the statement reaches the server.
\<close>

datatype violation = UniqueViolation | ForeignKeyViolation

datatype error =
  IntegrityError violation
  | DataError
  | ValueError
  | MultipleResultsFound
  | AttributeError

subsection \<open>The database\<close>

text \<open>
  The four tables in insertion order, the two identity sequences (\<^verbatim>\<open>db.Identity()\<close> on
  \<^verbatim>\<open>users.id\<close> and \<^verbatim>\<open>messages.id\<close>) and the value of \<^verbatim>\<open>current_timestamp\<close>, the column
  default of \<^verbatim>\<open>messages.timestamp\<close>.
\<close>

record database =
  users :: "user list"
  messages :: "message list"
  follows :: "follow list"
  likes :: "like list"
  users_id_seq :: nat
  messages_id_seq :: nat
  current_timestamp :: nat

text \<open>
  The objects a method constructs and hands to \<^verbatim>\<open>db.session.add\<close>. A new \<^verbatim>\<open>User\<close> or
  \<^verbatim>\<open>Message\<close> carries the keyword arguments of its constructor call; the remaining
  columns (the identity, the defaults) are filled in when the row is inserted.
\<close>

record new_user =
  nu_username :: string
  nu_email :: string
  nu_password :: string
  nu_image_url :: string

record new_message =
  nm_text :: string
  nm_user_id :: nat

datatype staged =
  StagedUser new_user
  | StagedMessage new_message
  | StagedFollow follow
  | StagedLike like

text \<open>
  String parameters. \<open>has_nul\<close> is the test the driver makes on every string it is
  handed. \<open>varchar n\<close> is the assignment of a string to a column declared \<^verbatim>\<open>String(n)\<close>:
  a string of at most \<open>n\<close> characters is stored as it is; a longer one is cut to \<open>n\<close>
  characters when everything beyond them is spaces, and is an error otherwise (the rule
  of the SQL standard, which PostgreSQL follows).
\<close>

definition has_nul :: "string \<Rightarrow> bool" where
  "has_nul v \<longleftrightarrow> CHR 0x00 \<in> set v"

definition varchar :: "nat \<Rightarrow> string \<Rightarrow> string option" where
  "varchar n v =
     (if length v \<le> n then Some v
      else if list_all (\<lambda>c. c = CHR '' '') (drop n v) then Some (take n v)
      else None)"

text \<open>
  INSERT into \<^verbatim>\<open>users\<close>. The declared column types are \<^verbatim>\<open>String(50)\<close> for the email,
  \<^verbatim>\<open>String(30)\<close> for the username, \<^verbatim>\<open>String(255)\<close> for the image URL and
  \<^verbatim>\<open>String(100)\<close> for the password; the primary key, the email and the username are
  unique. The header image, the bio and the location take their column defaults.

  A failure carries the database as the failed statement leaves it. A value the driver or
  a column type refuses never becomes a row. A row that a constraint refuses has drawn
  its id from the identity sequence, and a sequence does not give a value back.
\<close>

definition insert_user :: "database \<Rightarrow> new_user \<Rightarrow> (error \<times> database) + database" where
  "insert_user d nu =
     (if has_nul (nu_email nu) \<or> has_nul (nu_username nu)
         \<or> has_nul (nu_image_url nu) \<or> has_nul (nu_password nu)
      then Inl (ValueError, d)
      else
        case varchar 50 (nu_email nu) of None \<Rightarrow> Inl (DataError, d) | Some email \<Rightarrow>
        case varchar 30 (nu_username nu) of None \<Rightarrow> Inl (DataError, d) | Some username \<Rightarrow>
        case varchar 255 (nu_image_url nu) of None \<Rightarrow> Inl (DataError, d) | Some image_url \<Rightarrow>
        case varchar 100 (nu_password nu) of None \<Rightarrow> Inl (DataError, d) | Some password \<Rightarrow>
          if list_ex (\<lambda>u. u_id u = users_id_seq d \<or> u_email u = email
                \<or> u_username u = username) (users d)
          then Inl (IntegrityError UniqueViolation, d\<lparr>users_id_seq := Suc (users_id_seq d)\<rparr>)
          else Inr (d\<lparr>users := users d @
                      [\<lparr>u_id = users_id_seq d, u_email = email,
                        u_username = username, u_image_url = image_url,
                        u_header_image_url = DEFAULT_HEADER_IMAGE_URL, u_bio = [],
                        u_location = [], u_password = password\<rparr>],
                    users_id_seq := Suc (users_id_seq d)\<rparr>))"

text \<open>
  INSERT into \<^verbatim>\<open>messages\<close>: the text is \<^verbatim>\<open>String(140)\<close>, the owner is a foreign key
  into \<^verbatim>\<open>users\<close>, the timestamp defaults to \<^verbatim>\<open>current_timestamp\<close>.
\<close>

definition insert_message ::
  "database \<Rightarrow> new_message \<Rightarrow> (error \<times> database) + database" where
  "insert_message d nm =
     (if has_nul (nm_text nm) then Inl (ValueError, d)
      else
        case varchar 140 (nm_text nm) of None \<Rightarrow> Inl (DataError, d) | Some text \<Rightarrow>
          if list_ex (\<lambda>m. m_id m = messages_id_seq d) (messages d)
          then Inl (IntegrityError UniqueViolation,
                    d\<lparr>messages_id_seq := Suc (messages_id_seq d)\<rparr>)
          else if \<not> list_ex (\<lambda>u. u_id u = nm_user_id nm) (users d)
          then Inl (IntegrityError ForeignKeyViolation,
                    d\<lparr>messages_id_seq := Suc (messages_id_seq d)\<rparr>)
          else Inr (d\<lparr>messages := messages d @
                      [\<lparr>m_id = messages_id_seq d, m_text = text,
                        m_timestamp = current_timestamp d, m_user_id = nm_user_id nm\<rparr>],
                    messages_id_seq := Suc (messages_id_seq d)\<rparr>))"

text \<open>
  INSERT into \<^verbatim>\<open>follows\<close>: both columns form the primary key and are named again by the
  \<^verbatim>\<open>UniqueConstraint\<close> of \<^verbatim>\<open>__table_args__\<close>; both are foreign keys into \<^verbatim>\<open>users\<close>.
  There is no other constraint on the table.
\<close>

definition insert_follow :: "database \<Rightarrow> follow \<Rightarrow> error + database" where
  "insert_follow d f =
     (if list_ex (\<lambda>g. user_being_followed_id g = user_being_followed_id f
                \<and> user_following_id g = user_following_id f) (follows d)
      then Inl (IntegrityError UniqueViolation)
      else if \<not> list_ex (\<lambda>u. u_id u = user_being_followed_id f) (users d)
            \<or> \<not> list_ex (\<lambda>u. u_id u = user_following_id f) (users d)
      then Inl (IntegrityError ForeignKeyViolation)
      else Inr (d\<lparr>follows := follows d @ [f]\<rparr>))"

text \<open>
  INSERT into \<^verbatim>\<open>likes\<close>: \<^verbatim>\<open>(user_id, message_id)\<close> is the primary key; \<^verbatim>\<open>user_id\<close>
  references \<^verbatim>\<open>users\<close> and \<^verbatim>\<open>message_id\<close> references \<^verbatim>\<open>messages\<close>.
\<close>

definition insert_like :: "database \<Rightarrow> like \<Rightarrow> error + database" where
  "insert_like d l =
     (if list_ex (\<lambda>k. l_user_id k = l_user_id l \<and> l_message_id k = l_message_id l) (likes d)
      then Inl (IntegrityError UniqueViolation)
      else if \<not> list_ex (\<lambda>u. u_id u = l_user_id l) (users d)
            \<or> \<not> list_ex (\<lambda>m. m_id m = l_message_id l) (messages d)
      then Inl (IntegrityError ForeignKeyViolation)
      else Inr (d\<lparr>likes := likes d @ [l]\<rparr>))"

text \<open>
  The INSERT of one staged object, and of a list of them in turn up to the first failure.
  The tables \<^verbatim>\<open>follows\<close> and \<^verbatim>\<open>likes\<close> have no sequence, so a failure there leaves
  the database as it was.
\<close>

fun insert_staged :: "database \<Rightarrow> staged \<Rightarrow> (error \<times> database) + database" where
  "insert_staged d (StagedUser nu) = insert_user d nu"
| "insert_staged d (StagedMessage nm) = insert_message d nm"
| "insert_staged d (StagedFollow f) =
     (case insert_follow d f of Inl e \<Rightarrow> Inl (e, d) | Inr d' \<Rightarrow> Inr d')"
| "insert_staged d (StagedLike l) =
     (case insert_like d l of Inl e \<Rightarrow> Inl (e, d) | Inr d' \<Rightarrow> Inr d')"

fun insert_all :: "database \<Rightarrow> staged list \<Rightarrow> (error \<times> database) + database" where
  "insert_all d [] = Inr d"
| "insert_all d (x # xs) =
     (case insert_staged d x of Inl failure \<Rightarrow> Inl failure | Inr d' \<Rightarrow> insert_all d' xs)"

subsection \<open>The session\<close>

text \<open>
  \<^verbatim>\<open>db.session\<close>: the database as the open transaction sees it, the objects added and
  not yet flushed, and the relationship collections that have been loaded. A collection
  such as \<^verbatim>\<open>user.following_users\<close> is read from the database the first time it is
  accessed and is kept on the object from then on, until it is expired; the session's
  identity map holds one object per primary key, so the loaded collections are kept here
  per user id. The instance methods below take users that are rows of the table, that
  is, persistent objects, which have an id.
\<close>

record session =
  db :: database
  pending :: "staged list"
  following_users :: "nat \<rightharpoonup> follow list"
  followers_users :: "nat \<rightharpoonup> follow list"
  liked_messages :: "nat \<rightharpoonup> like list"

definition session_add :: "session \<Rightarrow> staged \<Rightarrow> session" where
  "session_add s x = s\<lparr>pending := pending s @ [x]\<rparr>"

fun is_staged_user :: "staged \<Rightarrow> bool" where
  "is_staged_user (StagedUser _) = True"
| "is_staged_user _ = False"

fun is_staged_message :: "staged \<Rightarrow> bool" where
  "is_staged_message (StagedMessage _) = True"
| "is_staged_message _ = False"

fun is_staged_follow :: "staged \<Rightarrow> bool" where
  "is_staged_follow (StagedFollow _) = True"
| "is_staged_follow _ = False"

fun is_staged_like :: "staged \<Rightarrow> bool" where
  "is_staged_like (StagedLike _) = True"
| "is_staged_like _ = False"

text \<open>
  The unit of work inserts parents before the rows that reference them: users, then
  messages, then follows and likes; within one table in the order the objects were added.
\<close>

definition unit_of_work :: "staged list \<Rightarrow> staged list" where
  "unit_of_work xs =
     filter is_staged_user xs @ filter is_staged_message xs
       @ filter is_staged_follow xs @ filter is_staged_like xs"

text \<open>
  A flush inserts the pending objects; the first row the database rejects raises. The
  loaded collections are left as they are. When the flush raises, the method that caused
  it ends with the exception and the session accepts nothing more until its caller has
  rolled the transaction back; no method of the module does that, so the result of a
  failed flush is the exception alone.
\<close>

definition flush :: "session \<Rightarrow> error + session" where
  "flush s =
     (case insert_all (db s) (unit_of_work (pending s)) of
        Inl (e, d) \<Rightarrow> Inl e
      | Inr d \<Rightarrow> Inr (s\<lparr>db := d, pending := []\<rparr>))"

text \<open>
  \<^verbatim>\<open>db.session.commit()\<close>, which the callers of the module run after a write: it flushes
  and then expires every loaded attribute, so the next access loads it again.
\<close>

definition commit :: "session \<Rightarrow> error + session" where
  "commit s =
     (case flush s of
        Inl e \<Rightarrow> Inl e
      | Inr s' \<Rightarrow> Inr (s'\<lparr>following_users := Map.empty, followers_users := Map.empty,
                         liked_messages := Map.empty\<rparr>))"

subsection \<open>The password hasher\<close>

text \<open>
  \<^verbatim>\<open>Bcrypt()\<close> is an external library. Both of its functions reduce to one primitive,
  \<^verbatim>\<open>hashpw(password, salt)\<close>, which is taken as a parameter: \<open>None\<close> is the
  \<open>ValueError\<close> it raises on a salt it cannot read. \<^verbatim>\<open>generate_password_hash\<close> refuses
  the empty password and hashes with a fresh salt (the parameter \<open>salt\<close>);
  \<^verbatim>\<open>check_password_hash\<close> hashes the candidate with the stored digest in the place of
  the salt and compares the result with the stored digest.
\<close>

type_synonym hashpw = "string \<Rightarrow> string \<Rightarrow> string option"

definition generate_password_hash :: "hashpw \<Rightarrow> string \<Rightarrow> string \<Rightarrow> error + string" where
  "generate_password_hash hp salt password =
     (if password = [] then Inl ValueError
      else case hp password salt of None \<Rightarrow> Inl ValueError | Some digest \<Rightarrow> Inr digest)"

definition check_password_hash :: "hashpw \<Rightarrow> string \<Rightarrow> string \<Rightarrow> error + bool" where
  "check_password_hash hp pw_hash password =
     (case hp password pw_hash of
        None \<Rightarrow> Inl ValueError
      | Some digest \<Rightarrow> Inr (digest = pw_hash))"

subsection \<open>Class methods of User\<close>

text \<open>
  \<^verbatim>\<open>User.signup\<close>: hash the password, construct the user, add it to the session, return
  it. The optional argument \<^verbatim>\<open>image_url\<close> is \<open>None\<close> when the caller leaves it out.
\<close>

definition signup ::
  "hashpw \<Rightarrow> string \<Rightarrow> session \<Rightarrow> string \<Rightarrow> string \<Rightarrow> string \<Rightarrow> string option
     \<Rightarrow> error + (new_user \<times> session)" where
  "signup hp salt s username email password image_url =
     (case generate_password_hash hp salt password of
        Inl e \<Rightarrow> Inl e
      | Inr hashed_pwd \<Rightarrow>
          (let user = \<lparr>nu_username = username, nu_email = email, nu_password = hashed_pwd,
                       nu_image_url = (case image_url of None \<Rightarrow> DEFAULT_IMAGE_URL
                                       | Some url \<Rightarrow> url)\<rparr>
           in Inr (user, session_add s (StagedUser user))))"

text \<open>
  \<^verbatim>\<open>scalar_one_or_none()\<close> of a result: \<open>None\<close> for no row, the row when there is
  exactly one, \<open>MultipleResultsFound\<close> otherwise.
\<close>

fun scalar_one_or_none :: "'a list \<Rightarrow> error + 'a option" where
  "scalar_one_or_none [] = Inr None"
| "scalar_one_or_none [x] = Inr (Some x)"
| "scalar_one_or_none _ = Inl MultipleResultsFound"

text \<open>
  \<^verbatim>\<open>User.authenticate\<close>. Executing the SELECT flushes the session first (autoflush);
  the username is the parameter of the SELECT, and the driver refuses it when it holds
  NUL. The result \<open>None\<close> stands for the \<^verbatim>\<open>False\<close> the method returns; a \<^verbatim>\<open>User\<close>
  object is always truthy, so \<^verbatim>\<open>if user:\<close> tests for a row having been found.
\<close>

definition authenticate ::
  "hashpw \<Rightarrow> session \<Rightarrow> string \<Rightarrow> string \<Rightarrow> error + (user option \<times> session)" where
  "authenticate hp s username password =
     (case flush s of
        Inl e \<Rightarrow> Inl e
      | Inr s' \<Rightarrow>
          if has_nul username then Inl ValueError
          else
            (case scalar_one_or_none
                    (filter (\<lambda>u. u_username u = username) (users (db s'))) of
               Inl e \<Rightarrow> Inl e
             | Inr None \<Rightarrow> Inr (None, s')
             | Inr (Some user) \<Rightarrow>
                 (case check_password_hash hp (u_password user) password of
                    Inl e \<Rightarrow> Inl e
                  | Inr is_auth \<Rightarrow>
                      if is_auth then Inr (Some user, s') else Inr (None, s'))))"

subsection \<open>Relationships\<close>

text \<open>
  The many-to-one side. \<^verbatim>\<open>Follow.following_user\<close> is declared with
  \<^verbatim>\<open>foreign_keys=[user_being_followed_id]\<close>, so it is the user being followed;
  \<^verbatim>\<open>Follow.followed_user\<close> is declared with \<^verbatim>\<open>foreign_keys=[user_following_id]\<close>, so
  it is the user who follows. Each yields the object the session holds for that primary
  key, or \<^verbatim>\<open>None\<close> when there is no such row.
\<close>

definition get_user :: "database \<Rightarrow> nat \<Rightarrow> user option" where
  "get_user d i = find (\<lambda>u. u_id u = i) (users d)"

definition get_message :: "database \<Rightarrow> nat \<Rightarrow> message option" where
  "get_message d i = find (\<lambda>m. m_id m = i) (messages d)"

definition following_user :: "database \<Rightarrow> follow \<Rightarrow> user option" where
  "following_user d f = get_user d (user_being_followed_id f)"

definition followed_user :: "database \<Rightarrow> follow \<Rightarrow> user option" where
  "followed_user d f = get_user d (user_following_id f)"

definition message_the_user_liked :: "database \<Rightarrow> like \<Rightarrow> message option" where
  "message_the_user_liked d l = get_message d (l_message_id l)"

text \<open>
  The one-to-many side, on \<^verbatim>\<open>User\<close>. \<^verbatim>\<open>following_users\<close> joins on
  \<^verbatim>\<open>Follow.user_following_id\<close>, \<^verbatim>\<open>followers_users\<close> on
  \<^verbatim>\<open>Follow.user_being_followed_id\<close>, \<^verbatim>\<open>liked_messages\<close> on \<^verbatim>\<open>Like.user_id\<close>. Reading
  the attribute returns the collection already loaded on the object, if there is one;
  otherwise it emits the SELECT (after an autoflush) and keeps the result on the object.
\<close>

definition following_users_of :: "session \<Rightarrow> user \<Rightarrow> error + (follow list \<times> session)" where
  "following_users_of s self =
     (case following_users s (u_id self) of
        Some fs \<Rightarrow> Inr (fs, s)
      | None \<Rightarrow>
          (case flush s of
             Inl e \<Rightarrow> Inl e
           | Inr s' \<Rightarrow>
               (let fs = filter (\<lambda>f. user_following_id f = u_id self) (follows (db s'))
                in Inr (fs, s'\<lparr>following_users := (following_users s')(u_id self \<mapsto> fs)\<rparr>))))"

definition followers_users_of :: "session \<Rightarrow> user \<Rightarrow> error + (follow list \<times> session)" where
  "followers_users_of s self =
     (case followers_users s (u_id self) of
        Some fs \<Rightarrow> Inr (fs, s)
      | None \<Rightarrow>
          (case flush s of
             Inl e \<Rightarrow> Inl e
           | Inr s' \<Rightarrow>
               (let fs = filter (\<lambda>f. user_being_followed_id f = u_id self) (follows (db s'))
                in Inr (fs, s'\<lparr>followers_users := (followers_users s')(u_id self \<mapsto> fs)\<rparr>))))"

definition liked_messages_of :: "session \<Rightarrow> user \<Rightarrow> error + (like list \<times> session)" where
  "liked_messages_of s self =
     (case liked_messages s (u_id self) of
        Some ls \<Rightarrow> Inr (ls, s)
      | None \<Rightarrow>
          (case flush s of
             Inl e \<Rightarrow> Inl e
           | Inr s' \<Rightarrow>
               (let ls = filter (\<lambda>l. l_user_id l = u_id self) (likes (db s'))
                in Inr (ls, s'\<lparr>liked_messages := (liked_messages s')(u_id self \<mapsto> ls)\<rparr>))))"

subsection \<open>Lists of relationships\<close>

text \<open>The properties \<^verbatim>\<open>likes\<close>, \<^verbatim>\<open>following\<close> and \<^verbatim>\<open>followers\<close> of \<^verbatim>\<open>User\<close>.\<close>

definition likes_of :: "session \<Rightarrow> user \<Rightarrow> error + (message option list \<times> session)" where
  "likes_of s self =
     (case liked_messages_of s self of
        Inl e \<Rightarrow> Inl e
      | Inr (ls, s') \<Rightarrow> Inr (map (message_the_user_liked (db s')) ls, s'))"

definition following :: "session \<Rightarrow> user \<Rightarrow> error + (user option list \<times> session)" where
  "following s self =
     (case following_users_of s self of
        Inl e \<Rightarrow> Inl e
      | Inr (fs, s') \<Rightarrow> Inr (map (following_user (db s')) fs, s'))"

definition followers :: "session \<Rightarrow> user \<Rightarrow> error + (user option list \<times> session)" where
  "followers s self =
     (case followers_users_of s self of
        Inl e \<Rightarrow> Inl e
      | Inr (fs, s') \<Rightarrow> Inr (map (followed_user (db s')) fs, s'))"

subsection \<open>Follows\<close>

text \<open>
  \<^verbatim>\<open>follow\<close> constructs the edge from the two ids and adds it to the session; nothing
  is sent to the database and no check is made. The edge is not appended to any
  relationship collection: it is built from ids, not from user objects.
\<close>

definition follow :: "session \<Rightarrow> user \<Rightarrow> user \<Rightarrow> session" where
  "follow s self other_user =
     session_add s (StagedFollow \<lparr>user_being_followed_id = u_id other_user,
                                  user_following_id = u_id self\<rparr>)"

text \<open>
  The DELETE statement of \<^verbatim>\<open>unfollow\<close> on the table, with the number of rows it
  removed, and its execution by \<^verbatim>\<open>dbx\<close>, which flushes first. The statement goes to the
  table; collections already loaded on objects are not touched by it.
\<close>

definition delete_follows :: "database \<Rightarrow> nat \<Rightarrow> nat \<Rightarrow> nat \<times> database" where
  "delete_follows d followed follower =
     (length (filter (\<lambda>f. user_being_followed_id f = followed
                          \<and> user_following_id f = follower) (follows d)),
      d\<lparr>follows := filter (\<lambda>f. \<not> (user_being_followed_id f = followed
                                  \<and> user_following_id f = follower)) (follows d)\<rparr>)"

definition dbx_delete_follows :: "session \<Rightarrow> nat \<Rightarrow> nat \<Rightarrow> error + (nat \<times> session)" where
  "dbx_delete_follows s followed follower =
     (case flush s of
        Inl e \<Rightarrow> Inl e
      | Inr s' \<Rightarrow>
          (case delete_follows (db s') followed follower of
             (rowcount, d) \<Rightarrow> Inr (rowcount, s'\<lparr>db := d\<rparr>)))"

definition unfollow :: "session \<Rightarrow> user \<Rightarrow> user \<Rightarrow> error + session" where
  "unfollow s self other_user =
     (case dbx_delete_follows s (u_id other_user) (u_id self) of
        Inl e \<Rightarrow> Inl e
      | Inr (rowcount, s') \<Rightarrow> Inr s')"

text \<open>
  \<^verbatim>\<open>user == other_user\<close>: \<^verbatim>\<open>User\<close> defines no \<^verbatim>\<open>__eq__\<close>, so this is object identity,
  and the identity map of the session makes it equality of primary keys. \<^verbatim>\<open>None\<close> is
  equal to no user.
\<close>

definition same_user :: "user option \<Rightarrow> user \<Rightarrow> bool" where
  "same_user user other_user =
     (case user of None \<Rightarrow> False | Some v \<Rightarrow> u_id v = u_id other_user)"

definition is_followed_by :: "session \<Rightarrow> user \<Rightarrow> user \<Rightarrow> error + (bool \<times> session)" where
  "is_followed_by s self other_user =
     (case followers s self of
        Inl e \<Rightarrow> Inl e
      | Inr (us, s') \<Rightarrow>
          (let found_user_list = filter (\<lambda>user. same_user user other_user) us
           in Inr (length found_user_list = 1, s')))"

definition is_following :: "session \<Rightarrow> user \<Rightarrow> user \<Rightarrow> error + (bool \<times> session)" where
  "is_following s self other_user =
     (case following s self of
        Inl e \<Rightarrow> Inl e
      | Inr (us, s') \<Rightarrow>
          (let found_user_list = filter (\<lambda>user. same_user user other_user) us
           in Inr (length found_user_list = 1, s')))"

subsection \<open>Likes\<close>

definition like :: "session \<Rightarrow> user \<Rightarrow> nat \<Rightarrow> session" where
  "like s self message_id =
     session_add s (StagedLike \<lparr>l_user_id = u_id self, l_message_id = message_id\<rparr>)"

definition delete_likes :: "database \<Rightarrow> nat \<Rightarrow> nat \<Rightarrow> nat \<times> database" where
  "delete_likes d message_id user_id =
     (length (filter (\<lambda>l. l_message_id l = message_id \<and> l_user_id l = user_id) (likes d)),
      d\<lparr>likes := filter (\<lambda>l. \<not> (l_message_id l = message_id \<and> l_user_id l = user_id))
                    (likes d)\<rparr>)"

definition dbx_delete_likes :: "session \<Rightarrow> nat \<Rightarrow> nat \<Rightarrow> error + (nat \<times> session)" where
  "dbx_delete_likes s message_id user_id =
     (case flush s of
        Inl e \<Rightarrow> Inl e
      | Inr s' \<Rightarrow>
          (case delete_likes (db s') message_id user_id of
             (rowcount, d) \<Rightarrow> Inr (rowcount, s'\<lparr>db := d\<rparr>)))"

definition unlike :: "session \<Rightarrow> user \<Rightarrow> nat \<Rightarrow> error + session" where
  "unlike s self message_id =
     (case dbx_delete_likes s message_id (u_id self) of
        Inl e \<Rightarrow> Inl e
      | Inr (rowcount, s') \<Rightarrow> Inr s')"

text \<open>
  The comprehension of \<^verbatim>\<open>is_liked\<close> reads \<^verbatim>\<open>liked_msg.id\<close> of every entry in turn; an
  entry that is \<^verbatim>\<open>None\<close> raises.
\<close>

fun found_likes :: "message option list \<Rightarrow> nat \<Rightarrow> error + message list" where
  "found_likes [] message_id = Inr []"
| "found_likes (None # ms) message_id = Inl AttributeError"
| "found_likes (Some liked_msg # ms) message_id =
     (case found_likes ms message_id of
        Inl e \<Rightarrow> Inl e
      | Inr found \<Rightarrow> Inr (if m_id liked_msg = message_id then liked_msg # found else found))"

definition is_liked :: "session \<Rightarrow> user \<Rightarrow> nat \<Rightarrow> error + (bool \<times> session)" where
  "is_liked s self message_id =
     (case likes_of s self of
        Inl e \<Rightarrow> Inl e
      | Inr (ms, s') \<Rightarrow>
          (case found_likes ms message_id of
             Inl e \<Rightarrow> Inl e
           | Inr found \<Rightarrow> Inr (length found = 1, s')))"


subsection \<open>Deleting a user\<close>

text \<open>
  Modelled from the spec: the deletion of a user. The module holds no function that
  deletes a user (its callers do that); what it declares is the schema, in which
  \<^verbatim>\<open>follows.user_being_followed_id\<close>, \<^verbatim>\<open>follows.user_following_id\<close>,
  \<^verbatim>\<open>likes.user_id\<close> and \<^verbatim>\<open>messages.user_id\<close> reference \<^verbatim>\<open>users.id\<close> and
  \<^verbatim>\<open>likes.message_id\<close> references \<^verbatim>\<open>messages.id\<close>, every one of them with
  \<^verbatim>\<open>ondelete="cascade"\<close>. The definition is the DELETE of one row of \<^verbatim>\<open>users\<close> under
  these foreign keys, as one statement of the database.
\<close>

definition delete_user :: "database \<Rightarrow> nat \<Rightarrow> database" where
  "delete_user d uid =
     d\<lparr>users := filter (\<lambda>u. u_id u \<noteq> uid) (users d),
       messages := filter (\<lambda>m. m_user_id m \<noteq> uid) (messages d),
       follows := filter (\<lambda>f. user_being_followed_id f \<noteq> uid \<and> user_following_id f \<noteq> uid)
                    (follows d),
       likes := filter (\<lambda>l. l_user_id l \<noteq> uid
                     \<and> \<not> list_ex (\<lambda>m. m_id m = l_message_id l \<and> m_user_id m = uid) (messages d))
                  (likes d)\<rparr>"

subsection \<open>Call sequences\<close>

text \<open>
  Two sequences of calls, as a caller or a test would write them, with the four answers
  they observe: follow, ask both questions, unfollow, ask both questions again. The
  second commits after each write, as the callers of the module do; the first does not.
\<close>

definition follow_ask_unfollow_ask ::
  "session \<Rightarrow> user \<Rightarrow> user \<Rightarrow> error + (bool \<times> bool \<times> bool \<times> bool)" where
  "follow_ask_unfollow_ask s a b =
     (case is_following (follow s a b) a b of Inl e \<Rightarrow> Inl e | Inr (r1, s1) \<Rightarrow>
      case is_followed_by s1 b a of Inl e \<Rightarrow> Inl e | Inr (r2, s2) \<Rightarrow>
      case unfollow s2 a b of Inl e \<Rightarrow> Inl e | Inr s3 \<Rightarrow>
      case is_following s3 a b of Inl e \<Rightarrow> Inl e | Inr (r3, s4) \<Rightarrow>
      case is_followed_by s4 b a of Inl e \<Rightarrow> Inl e | Inr (r4, s5) \<Rightarrow>
      Inr (r1, r2, r3, r4))"

definition follow_commit_ask_unfollow_commit_ask ::
  "session \<Rightarrow> user \<Rightarrow> user \<Rightarrow> error + (bool \<times> bool \<times> bool \<times> bool)" where
  "follow_commit_ask_unfollow_commit_ask s a b =
     (case commit (follow s a b) of Inl e \<Rightarrow> Inl e | Inr s0 \<Rightarrow>
      case is_following s0 a b of Inl e \<Rightarrow> Inl e | Inr (r1, s1) \<Rightarrow>
      case is_followed_by s1 b a of Inl e \<Rightarrow> Inl e | Inr (r2, s2) \<Rightarrow>
      case unfollow s2 a b of Inl e \<Rightarrow> Inl e | Inr s3 \<Rightarrow>
      case commit s3 of Inl e \<Rightarrow> Inl e | Inr s4 \<Rightarrow>
      case is_following s4 a b of Inl e \<Rightarrow> Inl e | Inr (r3, s5) \<Rightarrow>
      case is_followed_by s5 b a of Inl e \<Rightarrow> Inl e | Inr (r4, s6) \<Rightarrow>
      Inr (r1, r2, r3, r4))"

subsection \<open>A small database\<close>

text \<open>
  Two users, ana and bo, one message of ana's, no edges; a session on it with nothing
  pending and nothing loaded. \<open>example_hashpw\<close> is a stand-in for the hashing primitive,
  used to show that what the theorems assume of the hasher can be met: the digest is the
  first three characters of the salt followed by the password reversed.
\<close>

definition ana :: user where
  "ana = \<lparr>u_id = 1, u_email = ''ana@x.com'', u_username = ''ana'',
           u_image_url = DEFAULT_IMAGE_URL, u_header_image_url = DEFAULT_HEADER_IMAGE_URL,
           u_bio = [], u_location = [], u_password = ''$2bterces''\<rparr>"

definition bo :: user where
  "bo = \<lparr>u_id = 2, u_email = ''bo@x.com'', u_username = ''bo'',
          u_image_url = DEFAULT_IMAGE_URL, u_header_image_url = DEFAULT_HEADER_IMAGE_URL,
          u_bio = [], u_location = [], u_password = ''$2bdrowssap''\<rparr>"

definition hello :: message where
  "hello = \<lparr>m_id = 1, m_text = ''hello world'', m_timestamp = 0, m_user_id = 1\<rparr>"

definition example_db :: database where
  "example_db = \<lparr>users = [ana, bo], messages = [hello], follows = [], likes = [],
                  users_id_seq = 3, messages_id_seq = 2, current_timestamp = 7\<rparr>"

definition example_session :: session where
  "example_session = \<lparr>db = example_db, pending = [], following_users = Map.empty,
                       followers_users = Map.empty, liked_messages = Map.empty\<rparr>"

definition example_hashpw :: hashpw where
  "example_hashpw password salt =
     (if length salt < 3 then None else Some (take 3 salt @ rev password))"

definition example_db_edges :: database where
  "example_db_edges = example_db
     \<lparr>follows := [\<lparr>user_being_followed_id = 1, user_following_id = 2\<rparr>],
       likes := [\<lparr>l_user_id = 2, l_message_id = 1\<rparr>]\<rparr>"

definition example_session_edges :: session where
  "example_session_edges = example_session\<lparr>db := example_db_edges\<rparr>"

text \<open>
  A session in which the collections loaded on ana hold the same entry twice, which the
  primary keys of \<^verbatim>\<open>follows\<close> and \<^verbatim>\<open>likes\<close> rule out for collections read from the
  tables.
\<close>

definition example_session_twice :: session where
  "example_session_twice = example_session
     \<lparr>following_users := [1 \<mapsto> [\<lparr>user_being_followed_id = 2, user_following_id = 1\<rparr>,
                                \<lparr>user_being_followed_id = 2, user_following_id = 1\<rparr>]],
       followers_users := [1 \<mapsto> [\<lparr>user_being_followed_id = 1, user_following_id = 2\<rparr>,
                                \<lparr>user_being_followed_id = 1, user_following_id = 2\<rparr>]],
       liked_messages := [1 \<mapsto> [\<lparr>l_user_id = 1, l_message_id = 1\<rparr>,
                               \<lparr>l_user_id = 1, l_message_id = 1\<rparr>]]\<rparr>"

subsection \<open>Referential integrity\<close>

text \<open>Every foreign key of the schema points at a row that exists.\<close>

definition fk_ok :: "database \<Rightarrow> bool" where
  "fk_ok d \<longleftrightarrow>
     list_all (\<lambda>m. list_ex (\<lambda>u. u_id u = m_user_id m) (users d)) (messages d)
     \<and> list_all (\<lambda>f. list_ex (\<lambda>u. u_id u = user_being_followed_id f) (users d)
                    \<and> list_ex (\<lambda>u. u_id u = user_following_id f) (users d)) (follows d)
     \<and> list_all (\<lambda>l. list_ex (\<lambda>u. u_id u = l_user_id l) (users d)
                    \<and> list_ex (\<lambda>m. m_id m = l_message_id l) (messages d)) (likes d)"

section \<open>Properties\<close>

subsection \<open>Flushing\<close>

lemma flush_nothing_pending: "pending s = [] \<Longrightarrow> flush s = Inr s"
  by (simp add: flush_def unit_of_work_def)

lemma unit_of_work_single: "unit_of_work [x] = [x]"
  by (cases x) (simp_all add: unit_of_work_def)

lemma flush_single:
  "pending s = [x] \<Longrightarrow>
   flush s = (case insert_staged (db s) x of
                Inl (e, d) \<Rightarrow> Inl e
              | Inr d \<Rightarrow> Inr (s\<lparr>db := d, pending := []\<rparr>))"
  by (simp add: flush_def unit_of_work_single split: sum.splits)

lemma flush_pending: "flush s = Inr s' \<Longrightarrow> pending s' = []"
  by (auto simp: flush_def split: sum.splits)

lemma flush_again: "flush s = Inr s' \<Longrightarrow> flush s' = Inr s'"
  by (simp add: flush_pending flush_nothing_pending)

lemma example_session_flush: "flush example_session = Inr example_session"
  by (rule flush_nothing_pending) (simp add: example_session_def)

lemma example_session_edges_flush: "flush example_session_edges = Inr example_session_edges"
  by (rule flush_nothing_pending) (simp add: example_session_edges_def example_session_def)

subsection \<open>Lists\<close>

lemma filter_none: "\<not> list_ex P xs \<Longrightarrow> filter P xs = [] \<and> filter (\<lambda>x. \<not> P x) xs = xs"
  by (induction xs) auto

lemma filter_distinct_key:
  "distinct (map f xs) \<Longrightarrow> x \<in> set xs \<Longrightarrow> filter (\<lambda>y. f y = f x) xs = [x]"
proof (induction xs)
  case Nil
  then show ?case by simp
next
  case (Cons y ys)
  show ?case
  proof (cases "y = x")
    case True
    with Cons.prems have "f x \<notin> f ` set ys" by simp
    then have "\<forall>z\<in>set ys. f z \<noteq> f x" by (metis imageI)
    then have "filter (\<lambda>z. f z = f x) ys = []" by (simp add: filter_empty_conv)
    with True show ?thesis by simp
  next
    case False
    with Cons.prems have "x \<in> set ys" "f y \<noteq> f x" by auto
    with Cons show ?thesis by simp
  qed
qed

subsection \<open>String parameters\<close>

lemma varchar_fits: "length v \<le> n \<Longrightarrow> varchar n v = Some v"
  by (simp add: varchar_def)

text \<open>
  A user or a message that a constraint refuses has drawn its id: the failed INSERT
  leaves the sequence one further, and the tables as they were.
\<close>

lemma insert_user_refused_draws_id:
  assumes "insert_user d nu = Inl (IntegrityError v, d')"
  shows "d' = d\<lparr>users_id_seq := Suc (users_id_seq d)\<rparr>"
  using assms
  by (auto simp: insert_user_def split: if_splits option.splits)

lemma insert_message_refused_draws_id:
  assumes "insert_message d nm = Inl (IntegrityError v, d')"
  shows "d' = d\<lparr>messages_id_seq := Suc (messages_id_seq d)\<rparr>"
  using assms
  by (auto simp: insert_message_def split: if_splits option.splits)

lemma DEFAULT_IMAGE_URL_ok: "length DEFAULT_IMAGE_URL \<le> 255 \<and> \<not> has_nul DEFAULT_IMAGE_URL"
  by (simp add: DEFAULT_IMAGE_URL_def has_nul_def)

subsection \<open>Signing up and authenticating\<close>

text \<open>
  C1. For every valid username, email and password, \<^verbatim>\<open>User.signup\<close> followed by
  \<^verbatim>\<open>User.authenticate\<close> with the same username and password returns a user whose
  username and email are the ones signed up, and whose stored password is the digest and
  not the plaintext.

  Valid means what the code, the driver and the schema require: the password is not
  empty; the username, the email, the image URL and the digest hold no NUL and fit their
  columns; no row has the username or the email; the identity sequence is ahead of the
  stored ids; nothing else is pending in the session. Of the hasher the theorem assumes
  what \<^verbatim>\<open>bcrypt\<close> provides and the module relies on: hashing succeeds, hashing the
  password again with the digest in the place of the salt gives the digest back, and the
  digest is not the password itself.
\<close>

theorem signup_then_authenticate:
  assumes "pending s = []"
    and "password \<noteq> []"
    and "hp password salt = Some digest"
    and "hp password digest = Some digest"
    and "digest \<noteq> password"
    and "length username \<le> 30" and "length email \<le> 50" and "length digest \<le> 100"
    and "\<not> has_nul username" and "\<not> has_nul email" and "\<not> has_nul digest"
    and "\<forall>url. image_url = Some url \<longrightarrow> length url \<le> 255 \<and> \<not> has_nul url"
    and "\<forall>u\<in>set (users (db s)). u_username u \<noteq> username \<and> u_email u \<noteq> email
            \<and> u_id u \<noteq> users_id_seq (db s)"
  shows "\<exists>new s1 user s2.
           signup hp salt s username email password image_url = Inr (new, s1)
           \<and> authenticate hp s1 username password = Inr (Some user, s2)
           \<and> u_username user = username \<and> u_email user = email
           \<and> u_password user = digest \<and> u_password user \<noteq> password"
proof -
  define url where "url = (case image_url of None \<Rightarrow> DEFAULT_IMAGE_URL | Some url \<Rightarrow> url)"
  define new where "new = \<lparr>nu_username = username, nu_email = email, nu_password = digest,
                            nu_image_url = url\<rparr>"
  define s1 where "s1 = session_add s (StagedUser new)"
  define row where "row = \<lparr>u_id = users_id_seq (db s), u_email = email, u_username = username,
       u_image_url = url, u_header_image_url = DEFAULT_HEADER_IMAGE_URL, u_bio = [],
       u_location = [], u_password = digest\<rparr>"
  define d where "d = (db s)\<lparr>users := users (db s) @ [row],
                             users_id_seq := Suc (users_id_seq (db s))\<rparr>"
  have su: "signup hp salt s username email password image_url = Inr (new, s1)"
    using assms(2,3)
    by (simp add: signup_def generate_password_hash_def new_def s1_def url_def Let_def)
  have url: "length url \<le> 255 \<and> \<not> has_nul url"
    using assms(12) DEFAULT_IMAGE_URL_ok by (cases image_url) (simp_all add: url_def)
  have fits: "varchar 50 email = Some email" "varchar 30 username = Some username"
    "varchar 255 url = Some url" "varchar 100 digest = Some digest"
    using assms(6,7,8) url by (simp_all add: varchar_fits)
  have fresh: "\<not> list_ex (\<lambda>u. u_id u = users_id_seq (db s) \<or> u_email u = email
                \<or> u_username u = username) (users (db s))"
    using assms(13) by (auto simp: list_ex_iff)
  have ins: "insert_user (db s) new = Inr d"
    using assms(9,10,11) url fits fresh
    by (simp add: insert_user_def new_def d_def row_def)
  have p: "pending s1 = [StagedUser new]"
    using assms(1) by (simp add: s1_def session_add_def)
  have "db s1 = db s"
    by (simp add: s1_def session_add_def)
  then have fl: "flush s1 = Inr (s1\<lparr>db := d, pending := []\<rparr>)"
    using ins by (simp add: flush_single [OF p])
  have "filter (\<lambda>u. u_username u = username) (users (db s)) = []"
    using assms(13) by (simp add: filter_empty_conv)
  then have sel: "filter (\<lambda>u. u_username u = username) (users d) = [row]"
    by (simp add: d_def row_def)
  have chk: "check_password_hash hp (u_password row) password = Inr True"
    using assms(4) by (simp add: check_password_hash_def row_def)
  have au: "authenticate hp s1 username password
              = Inr (Some row, s1\<lparr>db := d, pending := []\<rparr>)"
    using fl sel chk assms(9) by (simp add: authenticate_def)
  from su au assms(5) show ?thesis
    by (auto simp: row_def)
qed

text \<open>
  The hypotheses of C1 hold when a third user signs up on the example session, with the
  image URL left to its default.
\<close>

theorem signup_then_authenticate_witness:
  "\<exists>new s1 user s2.
     signup example_hashpw ''$2b'' example_session ''cy'' ''cy@x.com'' ''secret'' None
       = Inr (new, s1)
     \<and> authenticate example_hashpw s1 ''cy'' ''secret'' = Inr (Some user, s2)
     \<and> u_username user = ''cy'' \<and> u_email user = ''cy@x.com''
     \<and> u_password user = ''$2bterces'' \<and> u_password user \<noteq> ''secret''"
proof -
  have h1: "pending example_session = []"
    by (simp add: example_session_def)
  have h2: "''secret'' \<noteq> []" by simp
  have h3: "example_hashpw ''secret'' ''$2b'' = Some ''$2bterces''"
    by (simp add: example_hashpw_def)
  have h4: "example_hashpw ''secret'' ''$2bterces'' = Some ''$2bterces''"
    by (simp add: example_hashpw_def)
  have h5: "''$2bterces'' \<noteq> ''secret''" by simp
  have h6: "length ''cy'' \<le> 30" "length ''cy@x.com'' \<le> 50" "length ''$2bterces'' \<le> 100"
    by simp_all
  have h7: "\<not> has_nul ''cy''" "\<not> has_nul ''cy@x.com''" "\<not> has_nul ''$2bterces''"
    by (simp_all add: has_nul_def)
  have h8: "\<forall>url. (None :: string option) = Some url \<longrightarrow> length url \<le> 255 \<and> \<not> has_nul url"
    by simp
  have h9: "\<forall>u\<in>set (users (db example_session)). u_username u \<noteq> ''cy''
              \<and> u_email u \<noteq> ''cy@x.com'' \<and> u_id u \<noteq> users_id_seq (db example_session)"
    by (simp add: example_session_def example_db_def ana_def bo_def)
  show ?thesis
    using signup_then_authenticate
      [where hp = example_hashpw and salt = "''$2b''" and image_url = None,
        OF h1 h2 h3 h4 h5 h6 h7 h8 h9] .
qed

text \<open>
  C2, as amended. For a username that holds no NUL character, \<^verbatim>\<open>User.authenticate\<close>
  returns the user exactly when a user with that username exists and the password
  verifies against the stored digest; in every other case, an unknown username or a wrong
  password alike, it returns the same value \<^verbatim>\<open>False\<close> (\<open>None\<close> here). For a username
  that holds NUL the driver refuses the SELECT and the method raises \<open>ValueError\<close>.

  The session \<open>s1\<close> is the session after the autoflush that precedes the SELECT. The
  usernames of the table are distinct, which the unique column guarantees, and the digest
  stored for the username is one the hasher can read.
\<close>

theorem authenticate_user_or_sentinel:
  assumes "flush s = Inr s1"
    and "distinct (map u_username (users (db s1)))"
    and "\<forall>u\<in>set (users (db s1)). u_username u = username
            \<longrightarrow> hp password (u_password u) \<noteq> None"
  shows "(has_nul username \<longrightarrow> authenticate hp s username password = Inl ValueError)
       \<and> (\<not> has_nul username \<longrightarrow>
            (\<exists>r. authenticate hp s username password = Inr (r, s1)
               \<and> (\<forall>u. r = Some u \<longleftrightarrow>
                      u \<in> set (users (db s1)) \<and> u_username u = username
                      \<and> check_password_hash hp (u_password u) password = Inr True)
               \<and> (r = None \<longleftrightarrow>
                      \<not> (\<exists>u\<in>set (users (db s1)). u_username u = username
                            \<and> check_password_hash hp (u_password u) password = Inr True))))"
proof (intro conjI impI)
  assume "has_nul username"
  with assms(1) show "authenticate hp s username password = Inl ValueError"
    by (simp add: authenticate_def)
next
  assume nul: "\<not> has_nul username"
  let ?goal = "\<exists>r. authenticate hp s username password = Inr (r, s1)
               \<and> (\<forall>u. r = Some u \<longleftrightarrow>
                      u \<in> set (users (db s1)) \<and> u_username u = username
                      \<and> check_password_hash hp (u_password u) password = Inr True)
               \<and> (r = None \<longleftrightarrow>
                      \<not> (\<exists>u\<in>set (users (db s1)). u_username u = username
                            \<and> check_password_hash hp (u_password u) password = Inr True))"
  show ?goal
  proof (cases "\<exists>u\<in>set (users (db s1)). u_username u = username")
    case False
    then have "filter (\<lambda>u. u_username u = username) (users (db s1)) = []"
      by (simp add: filter_empty_conv)
    then have "authenticate hp s username password = Inr (None, s1)"
      using assms(1) nul by (simp add: authenticate_def)
    with False show ?thesis by simp blast
  next
    case True
    then obtain v where v: "v \<in> set (users (db s1))" "u_username v = username" by blast
    have only: "filter (\<lambda>u. u_username u = username) (users (db s1)) = [v]"
      using filter_distinct_key [OF assms(2) v(1)] v(2) by simp
    have uniq: "u = v" if "u \<in> set (users (db s1))" "u_username u = username" for u
    proof -
      from that have "u \<in> set (filter (\<lambda>u. u_username u = username) (users (db s1)))"
        by simp
      with only show ?thesis by simp
    qed
    from assms(3) v obtain digest where digest: "hp password (u_password v) = Some digest"
      by blast
    show ?thesis
    proof (cases "digest = u_password v")
      case True
      have chk: "check_password_hash hp (u_password v) password = Inr True"
        using digest True by (simp add: check_password_hash_def)
      have au: "authenticate hp s username password = Inr (Some v, s1)"
        using assms(1) only chk nul by (simp add: authenticate_def)
      have "\<forall>u. Some v = Some u \<longleftrightarrow>
                    u \<in> set (users (db s1)) \<and> u_username u = username
                    \<and> check_password_hash hp (u_password u) password = Inr True"
        using v chk uniq by blast
      moreover have "\<exists>u\<in>set (users (db s1)). u_username u = username
                          \<and> check_password_hash hp (u_password u) password = Inr True"
        using v chk by blast
      ultimately show ?thesis using au by simp blast
    next
      case False
      have chk: "check_password_hash hp (u_password v) password = Inr False"
        using digest False by (simp add: check_password_hash_def)
      have "authenticate hp s username password = Inr (None, s1)"
        using assms(1) only chk nul by (simp add: authenticate_def)
      moreover have "\<not> (\<exists>u\<in>set (users (db s1)). u_username u = username
                          \<and> check_password_hash hp (u_password u) password = Inr True)"
        using uniq chk by auto
      ultimately show ?thesis by simp
    qed
  qed
qed

text \<open>
  On the example session: ana with her password is returned; ana with a wrong password
  and an unknown name both give \<open>None\<close>; a name holding NUL raises.
\<close>

theorem authenticate_user_or_sentinel_witness:
  "authenticate example_hashpw example_session ''ana'' ''secret''
     = Inr (Some ana, example_session)
   \<and> authenticate example_hashpw example_session ''ana'' ''guess''
     = Inr (None, example_session)
   \<and> authenticate example_hashpw example_session ''zed'' ''secret''
     = Inr (None, example_session)
   \<and> authenticate example_hashpw example_session [CHR ''z'', CHR 0x00] ''secret''
     = Inl ValueError"
proof -
  have us: "users (db example_session) = [ana, bo]"
    by (simp add: example_session_def example_db_def)
  have h2: "distinct (map u_username (users (db example_session)))"
    by (simp add: us ana_def bo_def)
  have h3: "\<forall>u\<in>set (users (db example_session)). u_username u = name
              \<longrightarrow> example_hashpw pw (u_password u) \<noteq> None" for name pw
    by (simp add: us ana_def bo_def example_hashpw_def)
  have ok: "check_password_hash example_hashpw (u_password ana) ''secret'' = Inr True"
    by (simp add: check_password_hash_def example_hashpw_def ana_def)
  have no: "check_password_hash example_hashpw (u_password u) ''guess'' \<noteq> Inr True"
    if "u \<in> set (users (db example_session))" for u
    using that by (auto simp: us check_password_hash_def example_hashpw_def ana_def bo_def)
  have name: "u_username ana = ''ana''" "ana \<in> set (users (db example_session))"
    by (simp_all add: us ana_def)
  have zed: "u_username u \<noteq> ''zed''" if "u \<in> set (users (db example_session))" for u
    using that by (auto simp: us ana_def bo_def)
  have nul: "\<not> has_nul ''ana''" "\<not> has_nul ''zed''" "has_nul [CHR ''z'', CHR 0x00]"
    by (simp_all add: has_nul_def)
  from authenticate_user_or_sentinel
         [where hp = example_hashpw and username = "''ana''" and password = "''secret''",
           OF example_session_flush h2 h3]
  have a: "authenticate example_hashpw example_session ''ana'' ''secret''
             = Inr (Some ana, example_session)"
    using ok name nul by auto
  from authenticate_user_or_sentinel
         [where hp = example_hashpw and username = "''ana''" and password = "''guess''",
           OF example_session_flush h2 h3]
  have b: "authenticate example_hashpw example_session ''ana'' ''guess''
             = Inr (None, example_session)"
    using no nul by auto
  from authenticate_user_or_sentinel
         [where hp = example_hashpw and username = "''zed''" and password = "''secret''",
           OF example_session_flush h2 h3]
  have c: "authenticate example_hashpw example_session ''zed'' ''secret''
             = Inr (None, example_session)"
    using zed nul by auto
  from authenticate_user_or_sentinel
         [where hp = example_hashpw and username = "[CHR ''z'', CHR 0x00]"
            and password = "''secret''", OF example_session_flush h2 h3]
  have d: "authenticate example_hashpw example_session [CHR ''z'', CHR 0x00] ''secret''
             = Inl ValueError"
    using nul by simp
  from a b c d show ?thesis by simp
qed

text \<open>
  C2 as stated fails: the name \<^verbatim>\<open>a\<close> followed by NUL is the name of no user, yet
  \<^verbatim>\<open>authenticate\<close> does not return \<^verbatim>\<open>False\<close> for it; it raises.
\<close>

theorem authenticate_nul_counterexample:
  "authenticate example_hashpw example_session [CHR ''a'', CHR 0x00] ''secret''
     = Inl ValueError"
  by (simp add: authenticate_def example_session_flush has_nul_def)

subsection \<open>Following\<close>

lemma same_user_get_user:
  "same_user (get_user d i) other_user
     \<longleftrightarrow> i = u_id other_user \<and> list_ex (\<lambda>u. u_id u = i) (users d)"
proof (cases "find (\<lambda>u. u_id u = i) (users d)")
  case None
  then have "\<not> list_ex (\<lambda>u. u_id u = i) (users d)"
    by (simp add: find_None_iff list_ex_iff)
  with None show ?thesis
    by (simp add: same_user_def get_user_def)
next
  case (Some v)
  then have "u_id v = i" "v \<in> set (users d)"
    by (auto simp: find_Some_iff)
  with Some show ?thesis
    by (auto simp: same_user_def get_user_def list_ex_iff)
qed

text \<open>
  On a session with nothing pending, a user whose collection is not loaded gets the
  answer the table gives, and the collection is loaded from then on.
\<close>

lemma is_following_fresh:
  assumes "pending s = []" and "following_users s (u_id self) = None"
    and "list_ex (\<lambda>u. u_id u = u_id other_user) (users (db s))"
  shows "is_following s self other_user =
    Inr (length (filter (\<lambda>f. user_following_id f = u_id self
                          \<and> user_being_followed_id f = u_id other_user) (follows (db s))) = 1,
         s\<lparr>following_users := (following_users s)(u_id self \<mapsto>
              filter (\<lambda>f. user_following_id f = u_id self) (follows (db s)))\<rparr>)"
proof -
  have "(\<lambda>f. same_user (following_user (db s) f) other_user)
      = (\<lambda>f. user_being_followed_id f = u_id other_user)"
    using assms(3) by (auto simp: following_user_def same_user_get_user)
  then show ?thesis
    using assms(2) flush_nothing_pending [OF assms(1)]
    by (simp add: is_following_def following_def following_users_of_def Let_def
        filter_map o_def conj_commute)
qed

lemma is_followed_by_fresh:
  assumes "pending s = []" and "followers_users s (u_id self) = None"
    and "list_ex (\<lambda>u. u_id u = u_id other_user) (users (db s))"
  shows "is_followed_by s self other_user =
    Inr (length (filter (\<lambda>f. user_being_followed_id f = u_id self
                          \<and> user_following_id f = u_id other_user) (follows (db s))) = 1,
         s\<lparr>followers_users := (followers_users s)(u_id self \<mapsto>
              filter (\<lambda>f. user_being_followed_id f = u_id self) (follows (db s)))\<rparr>)"
proof -
  have "(\<lambda>f. same_user (followed_user (db s) f) other_user)
      = (\<lambda>f. user_following_id f = u_id other_user)"
    using assms(3) by (auto simp: followed_user_def same_user_get_user)
  then show ?thesis
    using assms(2) flush_nothing_pending [OF assms(1)]
    by (simp add: is_followed_by_def followers_def followers_users_of_def Let_def
        filter_map o_def conj_commute)
qed

text \<open>
  C3, as amended. For users A and B of the table with A \<noteq> B, on a session with nothing
  pending and no edge from A to B: after \<^verbatim>\<open>A.follow(B)\<close> and a commit,
  \<^verbatim>\<open>A.is_following(B)\<close> and \<^verbatim>\<open>B.is_followed_by(A)\<close> are true; after a following
  \<^verbatim>\<open>A.unfollow(B)\<close> and a commit, both are false.

  The commits matter. \<^verbatim>\<open>follow\<close> adds an edge built from two ids and \<^verbatim>\<open>unfollow\<close>
  runs a DELETE on the table; neither touches a collection that is already loaded on a
  user object, and \<^verbatim>\<open>is_following\<close> and \<^verbatim>\<open>is_followed_by\<close> read those collections. A
  commit expires them.
\<close>

theorem follow_unfollow_with_commit:
  assumes "pending s = []"
    and "a \<in> set (users (db s))" and "b \<in> set (users (db s))"
    and "u_id a \<noteq> u_id b"
    and "\<not> list_ex (\<lambda>g. user_being_followed_id g = u_id b \<and> user_following_id g = u_id a)
            (follows (db s))"
  shows "follow_commit_ask_unfollow_commit_ask s a b = Inr (True, True, False, False)"
proof -
  let ?e = "\<lparr>user_being_followed_id = u_id b, user_following_id = u_id a\<rparr>"
  define s0 where "s0 = \<lparr>db = (db s)\<lparr>follows := follows (db s) @ [?e]\<rparr>, pending = [],
     following_users = Map.empty, followers_users = Map.empty, liked_messages = Map.empty\<rparr>"
  define s1 where "s1 = s0\<lparr>following_users := [u_id a \<mapsto>
     filter (\<lambda>f. user_following_id f = u_id a) (follows (db s0))]\<rparr>"
  define s2 where "s2 = s1\<lparr>followers_users := [u_id b \<mapsto>
     filter (\<lambda>f. user_being_followed_id f = u_id b) (follows (db s0))]\<rparr>"
  define s3 where "s3 = s2\<lparr>db := (db s0)\<lparr>follows := follows (db s)\<rparr>\<rparr>"
  define s4 where "s4 = \<lparr>db = (db s), pending = [],
     following_users = Map.empty, followers_users = Map.empty, liked_messages = Map.empty\<rparr>"
  define s5 where "s5 = s4\<lparr>following_users := [u_id a \<mapsto>
     filter (\<lambda>f. user_following_id f = u_id a) (follows (db s))]\<rparr>"
  have ua: "list_ex (\<lambda>u. u_id u = u_id a) (users (db s))"
    and ub: "list_ex (\<lambda>u. u_id u = u_id b) (users (db s))"
    using assms(2,3) by (auto simp: list_ex_iff)
  note none = filter_none [OF assms(5)]
  have p: "pending (follow s a b) = [StagedFollow ?e]"
    using assms(1) by (simp add: follow_def session_add_def)
  have "insert_follow (db s) ?e = Inr ((db s)\<lparr>follows := follows (db s) @ [?e]\<rparr>)"
    using assms(5) ua ub by (simp add: insert_follow_def)
  moreover have "db (follow s a b) = db s"
    by (simp add: follow_def session_add_def)
  ultimately have "flush (follow s a b)
      = Inr ((follow s a b)\<lparr>db := (db s)\<lparr>follows := follows (db s) @ [?e]\<rparr>, pending := []\<rparr>)"
    by (simp add: flush_single [OF p])
  then have c1: "commit (follow s a b) = Inr s0"
    by (simp add: commit_def s0_def follow_def session_add_def)
  have q1: "is_following s0 a b = Inr (True, s1)"
    using is_following_fresh [of s0 a b] ub none
    by (simp add: s0_def s1_def conj_commute)
  have q2: "is_followed_by s1 b a = Inr (True, s2)"
    using is_followed_by_fresh [of s1 b a] ua none
    by (simp add: s0_def s1_def s2_def)
  have "pending s2 = []" by (simp add: s0_def s1_def s2_def)
  then have "flush s2 = Inr s2" by (rule flush_nothing_pending)
  then have un: "unfollow s2 a b = Inr s3"
    using none
    by (simp add: unfollow_def dbx_delete_follows_def delete_follows_def s0_def s1_def
        s2_def s3_def)
  have "pending s3 = []" by (simp add: s0_def s1_def s2_def s3_def)
  then have "flush s3 = Inr s3" by (rule flush_nothing_pending)
  then have c2: "commit s3 = Inr s4"
    by (simp add: commit_def s0_def s1_def s2_def s3_def s4_def)
  have q3: "is_following s4 a b = Inr (False, s5)"
    using is_following_fresh [of s4 a b] ub none
    by (simp add: s4_def s5_def conj_commute)
  have "\<exists>s6. is_followed_by s5 b a = Inr (False, s6)"
    using is_followed_by_fresh [of s5 b a] ua none
    by (simp add: s4_def s5_def)
  then obtain s6 where q4: "is_followed_by s5 b a = Inr (False, s6)" ..
  show ?thesis
    by (simp add: follow_commit_ask_unfollow_commit_ask_def c1 q1 q2 un c2 q3 q4)
qed

text \<open>The hypotheses of the amended C3 hold for ana and bo on the example session.\<close>

theorem follow_unfollow_with_commit_witness:
  "pending example_session = []
   \<and> ana \<in> set (users (db example_session)) \<and> bo \<in> set (users (db example_session))
   \<and> u_id ana \<noteq> u_id bo
   \<and> follow_commit_ask_unfollow_commit_ask example_session ana bo
       = Inr (True, True, False, False)"
proof -
  have h1: "pending example_session = []"
    by (simp add: example_session_def)
  have h2: "ana \<in> set (users (db example_session))"
    and h3: "bo \<in> set (users (db example_session))"
    by (simp_all add: example_session_def example_db_def)
  have h4: "u_id ana \<noteq> u_id bo"
    by (simp add: ana_def bo_def)
  have h5: "\<not> list_ex (\<lambda>g. user_being_followed_id g = u_id bo \<and> user_following_id g = u_id ana)
              (follows (db example_session))"
    by (simp add: example_session_def example_db_def)
  from follow_unfollow_with_commit [OF h1 h2 h3 h4 h5] h1 h2 h3 h4 show ?thesis
    by simp
qed

text \<open>
  C3 as stated fails without the commits. On the example session, ana follows bo and both
  questions are answered true; ana then unfollows bo, the edge leaves the table, and both
  questions are still answered true, from the collections loaded by the first two answers.
\<close>

theorem follow_unfollow_stale_counterexample:
  "follow_ask_unfollow_ask example_session ana bo = Inr (True, True, True, True)"
  by code_simp

text \<open>
  C8. Self-follow is not rejected. For a user A of the table, on a session with nothing
  pending and no edge from A to A yet, \<^verbatim>\<open>A.follow(A)\<close> followed by a commit succeeds and
  the table gains the edge whose two ids are both A's: the only constraints on
  \<^verbatim>\<open>follows\<close> are the uniqueness of the pair and the two foreign keys, and \<^verbatim>\<open>follow\<close>
  makes no check.
\<close>

theorem self_follow_not_rejected:
  assumes "pending s = []"
    and "a \<in> set (users (db s))"
    and "\<not> list_ex (\<lambda>g. user_being_followed_id g = u_id a \<and> user_following_id g = u_id a)
            (follows (db s))"
  shows "\<exists>s'. commit (follow s a a) = Inr s'
           \<and> follows (db s') = follows (db s)
                @ [\<lparr>user_being_followed_id = u_id a, user_following_id = u_id a\<rparr>]"
proof -
  let ?e = "\<lparr>user_being_followed_id = u_id a, user_following_id = u_id a\<rparr>"
  have p: "pending (follow s a a) = [StagedFollow ?e]"
    using assms(1) by (simp add: follow_def session_add_def)
  have d: "db (follow s a a) = db s"
    by (simp add: follow_def session_add_def)
  have u: "list_ex (\<lambda>u. u_id u = u_id a) (users (db s))"
    using assms(2) by (auto simp: list_ex_iff)
  have "insert_follow (db s) ?e = Inr ((db s)\<lparr>follows := follows (db s) @ [?e]\<rparr>)"
    using assms(3) u by (simp add: insert_follow_def)
  then show ?thesis
    by (simp add: commit_def flush_single [OF p] d)
qed

text \<open>On the example session ana follows herself.\<close>

theorem self_follow_not_rejected_witness:
  "pending example_session = [] \<and> ana \<in> set (users (db example_session))
   \<and> (\<exists>s'. commit (follow example_session ana ana) = Inr s'
          \<and> follows (db s') = [\<lparr>user_being_followed_id = 1, user_following_id = 1\<rparr>])"
proof -
  have h1: "pending example_session = []"
    by (simp add: example_session_def)
  have h2: "ana \<in> set (users (db example_session))"
    by (simp add: example_session_def example_db_def)
  have h3: "\<not> list_ex (\<lambda>g. user_being_followed_id g = u_id ana
                \<and> user_following_id g = u_id ana) (follows (db example_session))"
    by (simp add: example_session_def example_db_def)
  have "follows (db example_session) = []" "u_id ana = 1"
    by (simp_all add: example_session_def example_db_def ana_def)
  with self_follow_not_rejected [OF h1 h2 h3] h1 h2 show ?thesis
    by simp
qed

text \<open>
  C5. Inserting a duplicate edge fails. On a session with nothing else pending, when the
  table already holds the edge from A to B, \<^verbatim>\<open>A.follow(B)\<close> followed by a commit raises
  the integrity error of a unique violation; and when the table already holds the like of
  a message by a user, \<^verbatim>\<open>user.like(message_id)\<close> followed by a commit raises the same.
\<close>

theorem duplicate_edge_conflict:
  assumes "pending s = []"
  shows "(list_ex (\<lambda>g. user_being_followed_id g = u_id b \<and> user_following_id g = u_id a)
             (follows (db s))
          \<longrightarrow> commit (follow s a b) = Inl (IntegrityError UniqueViolation))
       \<and> (list_ex (\<lambda>k. l_user_id k = u_id a \<and> l_message_id k = message_id) (likes (db s))
          \<longrightarrow> commit (like s a message_id) = Inl (IntegrityError UniqueViolation))"
proof -
  have pf: "pending (follow s a b)
      = [StagedFollow \<lparr>user_being_followed_id = u_id b, user_following_id = u_id a\<rparr>]"
    using assms by (simp add: follow_def session_add_def)
  have pl: "pending (like s a message_id)
      = [StagedLike \<lparr>l_user_id = u_id a, l_message_id = message_id\<rparr>]"
    using assms by (simp add: like_def session_add_def)
  have df: "db (follow s a b) = db s" by (simp add: follow_def session_add_def)
  have dl: "db (like s a message_id) = db s" by (simp add: like_def session_add_def)
  show ?thesis
    by (simp add: commit_def flush_single [OF pf] flush_single [OF pl] df dl
        insert_follow_def insert_like_def)
qed

text \<open>
  In the example with edges bo follows ana and likes her message; doing either again
  fails at the commit.
\<close>

theorem duplicate_edge_conflict_witness:
  "pending example_session_edges = []
   \<and> commit (follow example_session_edges bo ana) = Inl (IntegrityError UniqueViolation)
   \<and> commit (like example_session_edges bo 1) = Inl (IntegrityError UniqueViolation)"
proof -
  have h: "pending example_session_edges = []"
    by (simp add: example_session_edges_def example_session_def)
  have e1: "list_ex (\<lambda>g. user_being_followed_id g = u_id ana \<and> user_following_id g = u_id bo)
              (follows (db example_session_edges))"
    by (simp add: example_session_edges_def example_session_def example_db_edges_def
        ana_def bo_def)
  have e2: "list_ex (\<lambda>k. l_user_id k = u_id bo \<and> l_message_id k = 1)
              (likes (db example_session_edges))"
    by (simp add: example_session_edges_def example_session_def example_db_edges_def bo_def)
  from duplicate_edge_conflict [OF h, of ana bo 1] e1 e2 h show ?thesis
    by simp
qed

subsection \<open>Unfollowing and unliking\<close>

text \<open>
  C6. \<^verbatim>\<open>unfollow\<close> and \<^verbatim>\<open>unlike\<close> are no-ops on an absent edge. Let \<open>s1\<close> be the
  session after the autoflush that precedes the DELETE (\<open>s1\<close> is \<open>s\<close> itself when
  nothing is pending). If the table holds no edge with followed = target and follower =
  actor, the DELETE removes zero rows, raises nothing and leaves the session as it is;
  the same holds for \<^verbatim>\<open>unlike\<close> and an absent like. Calling \<^verbatim>\<open>unfollow\<close> (or
  \<^verbatim>\<open>unlike\<close>) a second time changes nothing, whether or not the edge was there the
  first time.
\<close>

theorem unfollow_unlike_absent_noop:
  assumes "flush s = Inr s1"
  shows "(\<not> list_ex (\<lambda>f. user_being_followed_id f = u_id target
                          \<and> user_following_id f = u_id actor) (follows (db s1))
          \<longrightarrow> dbx_delete_follows s (u_id target) (u_id actor) = Inr (0, s1)
              \<and> unfollow s actor target = Inr s1
              \<and> unfollow s1 actor target = Inr s1)
       \<and> (\<not> list_ex (\<lambda>l. l_message_id l = message_id \<and> l_user_id l = u_id actor)
              (likes (db s1))
          \<longrightarrow> dbx_delete_likes s message_id (u_id actor) = Inr (0, s1)
              \<and> unlike s actor message_id = Inr s1
              \<and> unlike s1 actor message_id = Inr s1)
       \<and> (\<forall>s2. unfollow s actor target = Inr s2 \<longrightarrow> unfollow s2 actor target = Inr s2)
       \<and> (\<forall>s2. unlike s actor message_id = Inr s2 \<longrightarrow> unlike s2 actor message_id = Inr s2)"
proof -
  note again = flush_again [OF assms]
  have a: "dbx_delete_follows s (u_id target) (u_id actor) = Inr (0, s1)"
       "unfollow s actor target = Inr s1" "unfollow s1 actor target = Inr s1"
    if "\<not> list_ex (\<lambda>f. user_being_followed_id f = u_id target
                          \<and> user_following_id f = u_id actor) (follows (db s1))"
    using filter_none [OF that] assms again
    by (simp_all add: unfollow_def dbx_delete_follows_def delete_follows_def)
  have b: "dbx_delete_likes s message_id (u_id actor) = Inr (0, s1)"
       "unlike s actor message_id = Inr s1" "unlike s1 actor message_id = Inr s1"
    if "\<not> list_ex (\<lambda>l. l_message_id l = message_id \<and> l_user_id l = u_id actor)
              (likes (db s1))"
    using filter_none [OF that] assms again
    by (simp_all add: unlike_def dbx_delete_likes_def delete_likes_def)
  have c: "unfollow s2 actor target = Inr s2" if "unfollow s actor target = Inr s2" for s2
  proof -
    from that assms
    have s2: "s2 = s1\<lparr>db := snd (delete_follows (db s1) (u_id target) (u_id actor))\<rparr>"
      by (auto simp: unfollow_def dbx_delete_follows_def split: prod.splits)
    have "pending s2 = []" using flush_pending [OF assms] s2 by simp
    then have "flush s2 = Inr s2" by (rule flush_nothing_pending)
    then show ?thesis
      by (simp add: unfollow_def dbx_delete_follows_def delete_follows_def s2)
  qed
  have d: "unlike s2 actor message_id = Inr s2" if "unlike s actor message_id = Inr s2" for s2
  proof -
    from that assms
    have s2: "s2 = s1\<lparr>db := snd (delete_likes (db s1) message_id (u_id actor))\<rparr>"
      by (auto simp: unlike_def dbx_delete_likes_def split: prod.splits)
    have "pending s2 = []" using flush_pending [OF assms] s2 by simp
    then have "flush s2 = Inr s2" by (rule flush_nothing_pending)
    then show ?thesis
      by (simp add: unlike_def dbx_delete_likes_def delete_likes_def s2)
  qed
  from a b c d show ?thesis by blast
qed

text \<open>
  On the example session, which has no edge at all, ana unfollows bo and unlikes message
  1: zero rows, no error, the session unchanged.
\<close>

theorem unfollow_unlike_absent_noop_witness:
  "flush example_session = Inr example_session
   \<and> dbx_delete_follows example_session (u_id bo) (u_id ana) = Inr (0, example_session)
   \<and> unfollow example_session ana bo = Inr example_session
   \<and> dbx_delete_likes example_session 1 (u_id ana) = Inr (0, example_session)
   \<and> unlike example_session ana 1 = Inr example_session"
proof -
  have e1: "\<not> list_ex (\<lambda>f. user_being_followed_id f = u_id bo
                          \<and> user_following_id f = u_id ana) (follows (db example_session))"
    by (simp add: example_session_def example_db_def)
  have e2: "\<not> list_ex (\<lambda>l. l_message_id l = 1 \<and> l_user_id l = u_id ana)
              (likes (db example_session))"
    by (simp add: example_session_def example_db_def)
  from unfollow_unlike_absent_noop [OF example_session_flush, of bo ana 1] e1 e2
    example_session_flush
  show ?thesis by simp
qed

text \<open>
  C9. \<^verbatim>\<open>unfollow\<close> and \<^verbatim>\<open>unlike\<close> remove only the addressed edge. With \<open>s1\<close> the
  session after the autoflush, \<^verbatim>\<open>actor.unfollow(target)\<close> returns a session whose
  \<^verbatim>\<open>follows\<close> table is that of \<open>s1\<close> without the rows that have both
  \<^verbatim>\<open>user_being_followed_id = target.id\<close> and \<^verbatim>\<open>user_following_id = actor.id\<close>, and
  whose likes, messages and users are those of \<open>s1\<close>; \<^verbatim>\<open>user.unlike(message_id)\<close> does
  the same to \<^verbatim>\<open>likes\<close> for the rows with both that message id and the user's id.
\<close>

theorem unfollow_unlike_frame:
  assumes "flush s = Inr s1"
  shows "(\<exists>s2. unfollow s actor target = Inr s2
            \<and> follows (db s2) = filter (\<lambda>f. \<not> (user_being_followed_id f = u_id target
                                         \<and> user_following_id f = u_id actor)) (follows (db s1))
            \<and> likes (db s2) = likes (db s1) \<and> messages (db s2) = messages (db s1)
            \<and> users (db s2) = users (db s1))
       \<and> (\<exists>s3. unlike s actor message_id = Inr s3
            \<and> likes (db s3) = filter (\<lambda>l. \<not> (l_message_id l = message_id
                                         \<and> l_user_id l = u_id actor)) (likes (db s1))
            \<and> follows (db s3) = follows (db s1) \<and> messages (db s3) = messages (db s1)
            \<and> users (db s3) = users (db s1))"
  using assms
  by (simp add: unfollow_def dbx_delete_follows_def delete_follows_def
      unlike_def dbx_delete_likes_def delete_likes_def)

text \<open>
  In the example with edges, bo unfollows ana: the follow edge goes, his like stays. Bo
  unlikes message 1: the like goes, the follow edge stays.
\<close>

theorem unfollow_unlike_frame_witness:
  "flush example_session_edges = Inr example_session_edges
   \<and> (\<exists>s2. unfollow example_session_edges bo ana = Inr s2
         \<and> follows (db s2) = [] \<and> likes (db s2) = [\<lparr>l_user_id = 2, l_message_id = 1\<rparr>]
         \<and> messages (db s2) = [hello] \<and> users (db s2) = [ana, bo])
   \<and> (\<exists>s3. unlike example_session_edges bo 1 = Inr s3
         \<and> likes (db s3) = []
         \<and> follows (db s3) = [\<lparr>user_being_followed_id = 1, user_following_id = 2\<rparr>]
         \<and> messages (db s3) = [hello] \<and> users (db s3) = [ana, bo])"
proof -
  have tables: "follows (db example_session_edges)
                  = [\<lparr>user_being_followed_id = 1, user_following_id = 2\<rparr>]"
    "likes (db example_session_edges) = [\<lparr>l_user_id = 2, l_message_id = 1\<rparr>]"
    "messages (db example_session_edges) = [hello]"
    "users (db example_session_edges) = [ana, bo]"
    by (simp_all add: example_session_edges_def example_session_def example_db_edges_def
        example_db_def)
  have ids: "u_id ana = 1" "u_id bo = 2"
    by (simp_all add: ana_def bo_def)
  from unfollow_unlike_frame [OF example_session_edges_flush, of bo ana 1]
    example_session_edges_flush
  show ?thesis
    by (simp add: tables ids)
qed

subsection \<open>Membership checks\<close>

text \<open>
  C10. \<^verbatim>\<open>is_followed_by\<close>, \<^verbatim>\<open>is_following\<close> and \<^verbatim>\<open>is_liked\<close> return true exactly
  when the number of matching entries of the derived list is one: with no matching entry
  they return false, and with more than one they return false as well. The derived lists
  are \<^verbatim>\<open>self.followers\<close>, \<^verbatim>\<open>self.following\<close> and \<^verbatim>\<open>self.likes\<close>; for \<^verbatim>\<open>is_liked\<close>
  every entry of the list is a message.
\<close>

theorem membership_checks_exactly_one:
  "(followers s self = Inr (us, s1) \<longrightarrow>
      is_followed_by s self other_user
        = Inr (length (filter (\<lambda>user. same_user user other_user) us) = 1, s1))
   \<and> (following s self = Inr (vs, s2) \<longrightarrow>
      is_following s self other_user
        = Inr (length (filter (\<lambda>user. same_user user other_user) vs) = 1, s2))
   \<and> (likes_of s self = Inr (map Some ms, s3) \<longrightarrow>
      is_liked s self message_id
        = Inr (length (filter (\<lambda>liked_msg. m_id liked_msg = message_id) ms) = 1, s3))"
proof -
  have found: "found_likes (map Some xs) i = Inr (filter (\<lambda>m. m_id m = i) xs)" for xs i
    by (induction xs) simp_all
  show ?thesis
    by (simp add: is_followed_by_def is_following_def is_liked_def found)
qed

text \<open>
  Where the collections loaded on ana hold bo, and the message, twice, all three checks
  answer false.
\<close>

theorem membership_checks_exactly_one_witness:
  "followers example_session_twice ana = Inr ([Some bo, Some bo], example_session_twice)
   \<and> is_followed_by example_session_twice ana bo = Inr (False, example_session_twice)
   \<and> following example_session_twice ana = Inr ([Some bo, Some bo], example_session_twice)
   \<and> is_following example_session_twice ana bo = Inr (False, example_session_twice)
   \<and> likes_of example_session_twice ana
       = Inr (map Some [hello, hello], example_session_twice)
   \<and> is_liked example_session_twice ana 1 = Inr (False, example_session_twice)"
proof -
  have d: "db example_session_twice = example_db"
    by (simp add: example_session_twice_def example_session_def)
  have ids: "u_id ana = 1" "u_id bo = 2" "m_id hello = 1"
    by (simp_all add: ana_def bo_def hello_def)
  have h1: "followers example_session_twice ana
              = Inr ([Some bo, Some bo], example_session_twice)"
    by (simp add: followers_def followers_users_of_def followed_user_def get_user_def ids
        example_db_def example_session_twice_def example_session_def)
  have h2: "following example_session_twice ana
              = Inr ([Some bo, Some bo], example_session_twice)"
    by (simp add: following_def following_users_of_def following_user_def get_user_def ids
        example_db_def example_session_twice_def example_session_def)
  have h3: "likes_of example_session_twice ana
              = Inr (map Some [hello, hello], example_session_twice)"
    by (simp add: likes_of_def liked_messages_of_def message_the_user_liked_def
        get_message_def ids example_db_def example_session_twice_def example_session_def)
  from membership_checks_exactly_one
    [of example_session_twice ana "[Some bo, Some bo]" example_session_twice bo
      "[Some bo, Some bo]" example_session_twice "[hello, hello]" example_session_twice 1]
    h1 h2 h3
  show ?thesis
    by (simp add: same_user_def ids)
qed

subsection \<open>Messages\<close>

text \<open>
  C4, as amended. The module validates nothing when a \<^verbatim>\<open>Message\<close> is constructed or
  added to the session: a message of any text is staged. The limit is the column type
  \<^verbatim>\<open>String(140)\<close>, applied when the session is flushed. On a session with nothing else
  pending, the commit of a staged message whose text is longer than 140 characters
  raises the data error of the storage layer, unless everything beyond the 140th
  character is spaces: then the text is stored cut to 140 characters. The commit of a
  message of at most 140 characters, so of exactly 140 too, owned by a user of the table,
  stores the row with the text as it is. A text that holds NUL is refused by the driver
  with \<open>ValueError\<close>, whatever its length.
\<close>

theorem message_length_checked_at_flush:
  assumes "pending s = []"
  shows "pending (session_add s (StagedMessage \<lparr>nm_text = text, nm_user_id = owner\<rparr>))
           = [StagedMessage \<lparr>nm_text = text, nm_user_id = owner\<rparr>]
       \<and> (has_nul text \<longrightarrow>
            commit (session_add s (StagedMessage \<lparr>nm_text = text, nm_user_id = owner\<rparr>))
              = Inl ValueError)
       \<and> (\<not> has_nul text \<and> 140 < length text
            \<and> \<not> list_all (\<lambda>c. c = CHR '' '') (drop 140 text) \<longrightarrow>
            commit (session_add s (StagedMessage \<lparr>nm_text = text, nm_user_id = owner\<rparr>))
              = Inl DataError)
       \<and> (\<not> has_nul text \<and> length text \<le> 140
            \<and> list_ex (\<lambda>u. u_id u = owner) (users (db s))
            \<and> \<not> list_ex (\<lambda>m. m_id m = messages_id_seq (db s)) (messages (db s)) \<longrightarrow>
            (\<exists>s'. commit (session_add s (StagedMessage \<lparr>nm_text = text, nm_user_id = owner\<rparr>))
                     = Inr s'
               \<and> messages (db s') = messages (db s) @
                    [\<lparr>m_id = messages_id_seq (db s), m_text = text,
                      m_timestamp = current_timestamp (db s), m_user_id = owner\<rparr>]))
       \<and> (\<not> has_nul text \<and> 140 < length text
            \<and> list_all (\<lambda>c. c = CHR '' '') (drop 140 text)
            \<and> list_ex (\<lambda>u. u_id u = owner) (users (db s))
            \<and> \<not> list_ex (\<lambda>m. m_id m = messages_id_seq (db s)) (messages (db s)) \<longrightarrow>
            (\<exists>s'. commit (session_add s (StagedMessage \<lparr>nm_text = text, nm_user_id = owner\<rparr>))
                     = Inr s'
               \<and> messages (db s') = messages (db s) @
                    [\<lparr>m_id = messages_id_seq (db s), m_text = take 140 text,
                      m_timestamp = current_timestamp (db s), m_user_id = owner\<rparr>]))"
proof -
  let ?m = "\<lparr>nm_text = text, nm_user_id = owner\<rparr>"
  let ?s = "session_add s (StagedMessage ?m)"
  have p: "pending ?s = [StagedMessage ?m]"
    using assms by (simp add: session_add_def)
  have d: "db ?s = db s" by (simp add: session_add_def)
  have c: "commit ?s =
      (case insert_message (db s) ?m of
         Inl (e, d) \<Rightarrow> Inl e
       | Inr d \<Rightarrow> Inr (?s\<lparr>db := d, pending := [], following_users := Map.empty,
                          followers_users := Map.empty, liked_messages := Map.empty\<rparr>))"
    by (simp add: commit_def flush_single [OF p] d split: sum.splits)
  have nul: "commit ?s = Inl ValueError" if "has_nul text"
    using that by (simp add: c insert_message_def)
  have long: "commit ?s = Inl DataError"
    if "\<not> has_nul text" "140 < length text" "\<not> list_all (\<lambda>c. c = CHR '' '') (drop 140 text)"
    using that by (simp add: c insert_message_def varchar_def)
  have fits: "\<exists>s'. commit ?s = Inr s'
               \<and> messages (db s') = messages (db s) @
                    [\<lparr>m_id = messages_id_seq (db s), m_text = text,
                      m_timestamp = current_timestamp (db s), m_user_id = owner\<rparr>]"
    if "\<not> has_nul text" "length text \<le> 140" "list_ex (\<lambda>u. u_id u = owner) (users (db s))"
      "\<not> list_ex (\<lambda>m. m_id m = messages_id_seq (db s)) (messages (db s))"
    using that by (simp add: c insert_message_def varchar_def)
  have cut: "\<exists>s'. commit ?s = Inr s'
               \<and> messages (db s') = messages (db s) @
                    [\<lparr>m_id = messages_id_seq (db s), m_text = take 140 text,
                      m_timestamp = current_timestamp (db s), m_user_id = owner\<rparr>]"
    if "\<not> has_nul text" "140 < length text" "list_all (\<lambda>c. c = CHR '' '') (drop 140 text)"
      "list_ex (\<lambda>u. u_id u = owner) (users (db s))"
      "\<not> list_ex (\<lambda>m. m_id m = messages_id_seq (db s)) (messages (db s))"
    using that by (simp add: c insert_message_def varchar_def)
  from p nul long fits cut show ?thesis by blast
qed

text \<open>
  On the example session, for ana: 141 letters are refused at the commit; 140 letters
  are stored as message 2; 140 letters and a space are stored as the 140 letters; 140
  characters of which one is NUL are refused by the driver.
\<close>

theorem message_length_checked_at_flush_witness:
  "pending example_session = []
   \<and> commit (session_add example_session
        (StagedMessage \<lparr>nm_text = replicate 141 CHR ''a'', nm_user_id = 1\<rparr>)) = Inl DataError
   \<and> (\<exists>s'. commit (session_add example_session
               (StagedMessage \<lparr>nm_text = replicate 140 CHR ''a'', nm_user_id = 1\<rparr>)) = Inr s'
          \<and> messages (db s') = [hello,
               \<lparr>m_id = 2, m_text = replicate 140 CHR ''a'', m_timestamp = 7, m_user_id = 1\<rparr>])
   \<and> (\<exists>s'. commit (session_add example_session
               (StagedMessage \<lparr>nm_text = replicate 140 CHR ''a'' @ '' '', nm_user_id = 1\<rparr>))
             = Inr s'
          \<and> messages (db s') = [hello,
               \<lparr>m_id = 2, m_text = replicate 140 CHR ''a'', m_timestamp = 7, m_user_id = 1\<rparr>])
   \<and> commit (session_add example_session
        (StagedMessage \<lparr>nm_text = replicate 139 CHR ''a'' @ [CHR 0x00], nm_user_id = 1\<rparr>))
       = Inl ValueError"
proof -
  have h: "pending example_session = []"
    by (simp add: example_session_def)
  have owner: "list_ex (\<lambda>u. u_id u = 1) (users (db example_session))"
    by (simp add: example_session_def example_db_def ana_def)
  have fresh: "\<not> list_ex (\<lambda>m. m_id m = messages_id_seq (db example_session))
                 (messages (db example_session))"
    by (simp add: example_session_def example_db_def hello_def)
  have vals: "messages (db example_session) = [hello]"
    "messages_id_seq (db example_session) = 2" "current_timestamp (db example_session) = 7"
    by (simp_all add: example_session_def example_db_def)
  have t141: "\<not> has_nul (replicate 141 CHR ''a'')" "140 < length (replicate 141 CHR ''a'')"
    "\<not> list_all (\<lambda>c. c = CHR '' '') (drop 140 (replicate 141 CHR ''a''))"
    by (simp_all add: has_nul_def)
  have t140: "\<not> has_nul (replicate 140 CHR ''a'')" "length (replicate 140 CHR ''a'') \<le> 140"
    by (simp_all add: has_nul_def)
  have tsp: "\<not> has_nul (replicate 140 CHR ''a'' @ '' '')"
    "140 < length (replicate 140 CHR ''a'' @ '' '')"
    "list_all (\<lambda>c. c = CHR '' '') (drop 140 (replicate 140 CHR ''a'' @ '' ''))"
    "take 140 (replicate 140 CHR ''a'' @ '' '') = replicate 140 CHR ''a''"
    by (simp_all add: has_nul_def)
  have tnul: "has_nul (replicate 139 CHR ''a'' @ [CHR 0x00])"
    by (simp add: has_nul_def)
  from message_length_checked_at_flush [OF h, of "replicate 141 CHR ''a''" 1] t141
  have long: "commit (session_add example_session
        (StagedMessage \<lparr>nm_text = replicate 141 CHR ''a'', nm_user_id = 1\<rparr>)) = Inl DataError"
    by blast
  from message_length_checked_at_flush [OF h, of "replicate 140 CHR ''a''" 1] t140 owner fresh
  have fits: "\<exists>s'. commit (session_add example_session
               (StagedMessage \<lparr>nm_text = replicate 140 CHR ''a'', nm_user_id = 1\<rparr>)) = Inr s'
          \<and> messages (db s') = [hello,
               \<lparr>m_id = 2, m_text = replicate 140 CHR ''a'', m_timestamp = 7, m_user_id = 1\<rparr>]"
    by (simp add: vals)
  from message_length_checked_at_flush [OF h, of "replicate 140 CHR ''a'' @ '' ''" 1]
    tsp(1,2,3) owner fresh
  have cut: "\<exists>s'. commit (session_add example_session
               (StagedMessage \<lparr>nm_text = replicate 140 CHR ''a'' @ '' '', nm_user_id = 1\<rparr>))
             = Inr s'
          \<and> messages (db s') = [hello,
               \<lparr>m_id = 2, m_text = replicate 140 CHR ''a'', m_timestamp = 7, m_user_id = 1\<rparr>]"
    by (simp add: vals)
  from message_length_checked_at_flush [OF h, of "replicate 139 CHR ''a'' @ [CHR 0x00]" 1] tnul
  have nul: "commit (session_add example_session
        (StagedMessage \<lparr>nm_text = replicate 139 CHR ''a'' @ [CHR 0x00], nm_user_id = 1\<rparr>))
       = Inl ValueError"
    by blast
  from h long fits cut nul show ?thesis by simp
qed

text \<open>
  C4 as stated fails: a message of 141 characters is constructed and staged without any
  error, so nothing is raised before it is staged; the error arrives with the flush.
\<close>

theorem message_staged_unvalidated_counterexample:
  "pending (session_add example_session
              (StagedMessage \<lparr>nm_text = replicate 141 CHR ''a'', nm_user_id = 1\<rparr>))
     = [StagedMessage \<lparr>nm_text = replicate 141 CHR ''a'', nm_user_id = 1\<rparr>]
   \<and> flush (session_add example_session
              (StagedMessage \<lparr>nm_text = replicate 141 CHR ''a'', nm_user_id = 1\<rparr>))
     = Inl DataError"
  by (simp add: session_add_def example_session_def flush_def unit_of_work_def
      insert_message_def has_nul_def varchar_def)

subsection \<open>Cascading deletion\<close>

lemma delete_user_fk_ok:
  assumes "fk_ok d"
  shows "fk_ok (delete_user d uid)"
proof -
  let ?d = "delete_user d uid"
  have kept: "list_ex (\<lambda>u. u_id u = i) (users ?d)"
    if "list_ex (\<lambda>u. u_id u = i) (users d)" "i \<noteq> uid" for i
    using that by (auto simp: delete_user_def list_ex_iff)
  have m: "list_ex (\<lambda>u. u_id u = m_user_id m) (users ?d)" if "m \<in> set (messages ?d)" for m
  proof -
    from that have "m \<in> set (messages d)" "m_user_id m \<noteq> uid"
      by (simp_all add: delete_user_def)
    with assms show ?thesis
      by (intro kept) (simp_all add: fk_ok_def list_all_iff)
  qed
  have f: "list_ex (\<lambda>u. u_id u = user_being_followed_id f) (users ?d)
         \<and> list_ex (\<lambda>u. u_id u = user_following_id f) (users ?d)"
    if "f \<in> set (follows ?d)" for f
  proof -
    from that have "f \<in> set (follows d)" "user_being_followed_id f \<noteq> uid"
      "user_following_id f \<noteq> uid"
      by (simp_all add: delete_user_def)
    with assms show ?thesis
      by (intro conjI kept) (simp_all add: fk_ok_def list_all_iff)
  qed
  have l: "list_ex (\<lambda>u. u_id u = l_user_id l) (users ?d)
         \<and> list_ex (\<lambda>m. m_id m = l_message_id l) (messages ?d)"
    if "l \<in> set (likes ?d)" for l
  proof -
    from that have in_d: "l \<in> set (likes d)" and "l_user_id l \<noteq> uid"
      and none: "\<not> list_ex (\<lambda>m. m_id m = l_message_id l \<and> m_user_id m = uid) (messages d)"
      by (simp_all add: delete_user_def)
    with assms have liker: "list_ex (\<lambda>u. u_id u = l_user_id l) (users ?d)"
      by (intro kept) (simp_all add: fk_ok_def list_all_iff)
    from assms in_d obtain m where m: "m \<in> set (messages d)" "m_id m = l_message_id l"
      by (auto simp: fk_ok_def list_all_iff list_ex_iff)
    with none have "m_user_id m \<noteq> uid"
      by (auto simp: list_ex_iff)
    with m have "list_ex (\<lambda>m. m_id m = l_message_id l) (messages ?d)"
      by (auto simp: delete_user_def list_ex_iff)
    with liker show ?thesis by simp
  qed
  from m f l show ?thesis
    by (simp add: fk_ok_def list_all_iff)
qed

text \<open>
  C7. Deleting user B removes, in one step, every follow edge in which B is the follower
  or the followed user, every message B owns and every like whose user is B; no dependent
  record survives and no unrelated record is removed. A row of \<^verbatim>\<open>users\<close>, \<^verbatim>\<open>follows\<close>
  or \<^verbatim>\<open>messages\<close> is in the table afterwards exactly when it was there before and does
  not refer to B; a like is there afterwards exactly when it was there before, is not B's
  and is not a like of one of B's messages (those go with the message they depend on).
  Where every foreign key pointed at an existing row before, it does so afterwards.
\<close>

theorem delete_user_cascade:
  "(\<forall>u. u \<in> set (users (delete_user d uid)) \<longleftrightarrow> u \<in> set (users d) \<and> u_id u \<noteq> uid)
   \<and> (\<forall>f. f \<in> set (follows (delete_user d uid)) \<longleftrightarrow>
          f \<in> set (follows d) \<and> user_being_followed_id f \<noteq> uid \<and> user_following_id f \<noteq> uid)
   \<and> (\<forall>m. m \<in> set (messages (delete_user d uid)) \<longleftrightarrow>
          m \<in> set (messages d) \<and> m_user_id m \<noteq> uid)
   \<and> (\<forall>l. l \<in> set (likes (delete_user d uid)) \<longleftrightarrow>
          l \<in> set (likes d) \<and> l_user_id l \<noteq> uid
          \<and> \<not> (\<exists>m\<in>set (messages d). m_id m = l_message_id l \<and> m_user_id m = uid))
   \<and> (fk_ok d \<longrightarrow> fk_ok (delete_user d uid))"
  using delete_user_fk_ok [of d uid]
  by (simp add: delete_user_def list_ex_iff)

text \<open>
  In the example with edges, deleting ana leaves bo alone in \<^verbatim>\<open>users\<close> and empties the
  other three tables: her message, the edge to her and the like of her message go.
  Deleting bo leaves ana and her message.
\<close>

theorem delete_user_cascade_witness:
  "fk_ok example_db_edges \<and> fk_ok (delete_user example_db_edges 1)
   \<and> users (delete_user example_db_edges 1) = [bo]
   \<and> messages (delete_user example_db_edges 1) = []
   \<and> follows (delete_user example_db_edges 1) = []
   \<and> likes (delete_user example_db_edges 1) = []
   \<and> users (delete_user example_db_edges 2) = [ana]
   \<and> messages (delete_user example_db_edges 2) = [hello]
   \<and> follows (delete_user example_db_edges 2) = []
   \<and> likes (delete_user example_db_edges 2) = []"
proof -
  have ok: "fk_ok example_db_edges"
    by (simp add: fk_ok_def example_db_edges_def example_db_def ana_def bo_def hello_def)
  with delete_user_cascade [of example_db_edges 1]
  have ok': "fk_ok (delete_user example_db_edges 1)"
    by blast
  have "users (delete_user example_db_edges 1) = [bo]"
    "messages (delete_user example_db_edges 1) = []"
    "follows (delete_user example_db_edges 1) = []"
    "likes (delete_user example_db_edges 1) = []"
    "users (delete_user example_db_edges 2) = [ana]"
    "messages (delete_user example_db_edges 2) = [hello]"
    "follows (delete_user example_db_edges 2) = []"
    "likes (delete_user example_db_edges 2) = []"
    by (simp_all add: delete_user_def example_db_edges_def example_db_def ana_def bo_def
        hello_def)
  with ok ok' show ?thesis by simp
qed

end
